theory Spec2Isabelle
  imports Main "HOL-Library.Sublist"
begin

section \<open>Python strings\<close>

text \<open>
  Paths and destination keys are Python strings, modelled as \<open>string\<close>. The converter
  uses \<open>str.startswith\<close>, \<open>str.endswith\<close>, the substring test \<open>in\<close>,
  \<open>str.find\<close> with the one-character needle \<open>"/"\<close> (which answers \<open>-1\<close> when
  the needle is absent) and the slices \<open>s[:i]\<close> and \<open>s[i:]\<close>, whose index may be
  that \<open>-1\<close>: a negative index counts from the end.
\<close>

definition startswith :: "string \<Rightarrow> string \<Rightarrow> bool" where
  "startswith s p = prefix p s"

definition endswith :: "string \<Rightarrow> string \<Rightarrow> bool" where
  "endswith s p = suffix p s"

definition contains :: "string \<Rightarrow> string \<Rightarrow> bool" where
  "contains s p = sublist p s"

fun str_find :: "string \<Rightarrow> char \<Rightarrow> int" where
  "str_find [] c = - 1"
| "str_find (x # xs) c =
     (if x = c then 0
      else (let r = str_find xs c in if r < 0 then - 1 else r + 1))"

definition slice_to :: "string \<Rightarrow> int \<Rightarrow> string" where
  "slice_to s i = (if i < 0 then take (length s - nat (- i)) s else take (nat i) s)"

definition slice_from :: "string \<Rightarrow> int \<Rightarrow> string" where
  "slice_from s i = (if i < 0 then drop (length s - nat (- i)) s else drop (nat i) s)"

section \<open>Errors\<close>

text \<open>
  Every \<open>raise ValueError\<close> of the converter is a constructor that keeps the strings of
  its message. \<open>UnpackError\<close> is the error of \<open>a, b = x\<close> when \<open>x\<close> does not
  hold two items, \<open>IterationError\<close> that of unpacking a 0-dimensional array,
  \<open>ArrayError\<close> the error numpy raises when a reshape or an axis permutation does
  not fit the array, and \<open>IndexError\<close> that of \<open>paths[0]\<close> on an empty sequence.
\<close>

datatype error =
    UnexpectedMember string string
  | UnexpectedSubpath string
  | UnexpectedPath string
  | LengthMismatch nat nat string
  | UnpackError
  | IterationError
  | ArrayError
  | IndexError

definition bind_err :: "error + 'a \<Rightarrow> ('a \<Rightarrow> error + 'b) \<Rightarrow> error + 'b" where
  "bind_err r f = (case r of Inl e \<Rightarrow> Inl e | Inr x \<Rightarrow> f x)"

section \<open>Arrays\<close>

text \<open>
  An array is its shape, its elements in row-major (C) order and its dtype. The element
  type is a parameter: the arithmetic of the elements plays no part in the routing and
  the reshaping of the tensors.
\<close>

datatype dtype = Float32 | BFloat16 | Float16 | Float64

datatype 'a ndarray = NDArray (shape: "nat list") (data: "'a list") (dtype: dtype)

definition wf_array :: "'a ndarray \<Rightarrow> bool" where
  "wf_array a = (length (data a) = prod_list (shape a))"

text \<open>The multi-index of a flat position in a shape, and back.\<close>

fun unravel :: "nat list \<Rightarrow> nat \<Rightarrow> nat list" where
  "unravel [] n = []"
| "unravel (d # ds) n = (n div prod_list ds) # unravel ds (n mod prod_list ds)"

fun ravel :: "nat list \<Rightarrow> nat list \<Rightarrow> nat" where
  "ravel (d # ds) (i # is) = i * prod_list ds + ravel ds is"
| "ravel _ _ = 0"

fun index_of :: "nat list \<Rightarrow> nat \<Rightarrow> nat" where
  "index_of [] d = 0"
| "index_of (x # xs) d = (if x = d then 0 else Suc (index_of xs d))"

text \<open>The element \<open>a[i, j, ...]\<close> of an array at an in-range multi-index.\<close>

definition item :: "'a ndarray \<Rightarrow> nat list \<Rightarrow> 'a" where
  "item a idx = data a ! ravel (shape a) idx"

text \<open>
  \<open>a.reshape(newshape)\<close>: at most one entry of the new shape is \<open>-1\<close> and is then
  inferred from the size; numpy raises when another entry is negative, when the sizes
  differ, or when the unknown entry cannot be inferred. The elements keep their
  row-major order.
\<close>

definition reshape :: "int list \<Rightarrow> 'a ndarray \<Rightarrow> error + 'a ndarray" where
  "reshape newshape a =
     (let n = prod_list (shape a);
          known = filter (\<lambda>d. d \<noteq> - 1) newshape;
          k = prod_list (map nat known)
      in if (\<exists>d \<in> set known. d < 0) \<or> length newshape - length known > 1 then Inl ArrayError
         else if length known = length newshape then
           (if k = n then Inr (NDArray (map nat newshape) (data a) (dtype a))
            else Inl ArrayError)
         else if k = 0 \<or> n mod k \<noteq> 0 then Inl ArrayError
         else Inr (NDArray (map (\<lambda>d. if d = - 1 then n div k else nat d) newshape)
                     (data a) (dtype a)))"

text \<open>
  \<open>a.transpose(*axes)\<close>: axis \<open>k\<close> of the result is axis \<open>axes[k]\<close> of the
  array, so the element at multi-index \<open>j\<close> of the result is the element of the array
  at the multi-index \<open>i\<close> with \<open>i[axes[k]] = j[k]\<close>. numpy raises unless the axes
  are a permutation of the array's axes. Without arguments the axes are reversed.
\<close>

definition permute_axes :: "nat list \<Rightarrow> 'a ndarray \<Rightarrow> 'a ndarray" where
  "permute_axes axes a =
     (let shp = shape a;
          newshape = map (\<lambda>k. shp ! k) axes;
          src = (\<lambda>n. let j = unravel newshape n
                      in ravel shp (map (\<lambda>d. j ! index_of axes d) [0..<length shp]))
      in NDArray newshape (map (\<lambda>n. data a ! src n) [0..<prod_list newshape]) (dtype a))"

definition transpose_axes :: "nat list \<Rightarrow> 'a ndarray \<Rightarrow> error + 'a ndarray" where
  "transpose_axes axes a =
     (if length axes \<noteq> length (shape a) \<or> \<not> distinct axes
         \<or> (\<exists>k \<in> set axes. length (shape a) \<le> k)
      then Inl ArrayError
      else Inr (permute_axes axes a))"

definition transpose_rev :: "'a ndarray \<Rightarrow> 'a ndarray" where
  "transpose_rev a = permute_axes (rev [0..<length (shape a)]) a"

text \<open>
  \<open>x, y = a\<close> iterates over the leading axis of the array and needs exactly two
  sub-arrays.
\<close>

definition unpack2 :: "'a ndarray \<Rightarrow> error + ('a ndarray \<times> 'a ndarray)" where
  "unpack2 a =
     (case shape a of
        [] \<Rightarrow> Inl IterationError
      | d # ds \<Rightarrow>
          if d \<noteq> 2 then Inl UnpackError
          else (let m = prod_list ds
                in Inr (NDArray ds (take m (data a)) (dtype a),
                        NDArray ds (take m (drop m (data a))) (dtype a))))"

section \<open>Configuration\<close>

record text_config =
  hidden_size :: int
  num_attention_heads :: int
  num_key_value_heads :: int
  head_dim :: int

record vision_config =
  vision_hidden_size :: int

record gemma3_config =
  text_config :: text_config
  vision_config :: "vision_config option"

section \<open>Constants of the converter\<close>

definition SIGLIP_BASE :: string where
  "SIGLIP_BASE = ''SigLiPFromPatches_0/siglip_encoder''"

definition SIGLIP_EMBEDDING :: string where
  "SIGLIP_EMBEDDING = ''SigLiPFromPatches_0/siglip_encoder/embedding''"

definition SIGLIP_TRANSFORMER_ENCODER_BLOCK :: string where
  "SIGLIP_TRANSFORMER_ENCODER_BLOCK =
     ''SigLiPFromPatches_0/siglip_encoder/Transformer/encoderblock_''"

definition SIGLIP_TRANSFORMER_ENCODER_BLOCK_LEN :: int where
  "SIGLIP_TRANSFORMER_ENCODER_BLOCK_LEN = int (length SIGLIP_TRANSFORMER_ENCODER_BLOCK)"

definition SIGLIP_TRANSFORMER_ENCODER_NORM :: string where
  "SIGLIP_TRANSFORMER_ENCODER_NORM =
     ''SigLiPFromPatches_0/siglip_encoder/Transformer/encoder_norm''"

definition TRANSFORMER_DECODER_BLOCK :: string where
  "TRANSFORMER_DECODER_BLOCK = ''transformer/layer_''"

definition TRANSFORMER_DECODER_BLOCK_LEN :: int where
  "TRANSFORMER_DECODER_BLOCK_LEN = int (length TRANSFORMER_DECODER_BLOCK)"

definition TRANSFORMER_EMBEDDER :: string where
  "TRANSFORMER_EMBEDDER = ''transformer/embedder''"

definition TRANSFORMER_FINAL_NORM :: string where
  "TRANSFORMER_FINAL_NORM = ''transformer/final_norm''"

section \<open>The text-branch rule table\<close>

text \<open>
  \<open>_convert_transformer_weights\<close> fills \<open>converted_paths\<close> and
  \<open>converted_weights\<close>, unless it raises or returns the empty \<open>zip([], [])\<close> at
  once. \<open>outcome\<close> keeps the three ways out of the dispatch apart.
\<close>

datatype 'a outcome =
    Raise error
  | EarlyReturn "(string \<times> 'a ndarray) list"
  | Converted "string list" "'a ndarray list"

definition decoder_block_weights ::
  "text_config \<Rightarrow> string \<Rightarrow> 'a ndarray \<Rightarrow> 'a outcome" where
  "decoder_block_weights config path weights =
     (let attn_head_dim = num_attention_heads config * head_dim config;
          kv_head_dim = num_key_value_heads config * head_dim config;
          decoder_block_path = slice_from path TRANSFORMER_DECODER_BLOCK_LEN;
          next_path_seperator_idx = str_find decoder_block_path CHR ''/'';
          layer_idx = slice_to decoder_block_path next_path_seperator_idx;
          base_path = ''language_model.model.layers.'' @ layer_idx
      in
      if endswith path ''attn/attn_vec_einsum'' then
        (case bind_err (transpose_axes [2, 0, 1] weights)
                (reshape [hidden_size config, attn_head_dim]) of
           Inl e \<Rightarrow> Raise e
         | Inr w \<Rightarrow> Converted [base_path @ ''.self_attn.o_proj.weight''] [w])
      else if endswith path ''attn/_key_norm'' then
        Converted [base_path @ ''.self_attn.k_norm.weight''] [weights]
      else if endswith path ''attn/kv_einsum'' then
        (case bind_err (unpack2 weights) (\<lambda>(k_proj_weights, v_proj_weights).
                bind_err (bind_err (transpose_axes [0, 2, 1] k_proj_weights)
                            (reshape [kv_head_dim, hidden_size config])) (\<lambda>k.
                bind_err (bind_err (transpose_axes [0, 2, 1] v_proj_weights)
                            (reshape [kv_head_dim, hidden_size config])) (\<lambda>v.
                Inr [k, v]))) of
           Inl e \<Rightarrow> Raise e
         | Inr ws \<Rightarrow>
             Converted [base_path @ ''.self_attn.k_proj.weight'',
                        base_path @ ''.self_attn.v_proj.weight''] ws)
      else if endswith path ''attn/q_einsum'' then
        (case bind_err (transpose_axes [0, 2, 1] weights)
                (reshape [attn_head_dim, hidden_size config]) of
           Inl e \<Rightarrow> Raise e
         | Inr w \<Rightarrow> Converted [base_path @ ''.self_attn.q_proj.weight''] [w])
      else if endswith path ''attn/_query_norm'' then
        Converted [base_path @ ''.self_attn.q_norm.weight''] [weights]
      else if endswith path ''mlp/gating_einsum'' then
        (case unpack2 weights of
           Inl e \<Rightarrow> Raise e
         | Inr (gate_proj_weight, up_proj_weight) \<Rightarrow>
             Converted [base_path @ ''.mlp.gate_proj.weight'',
                        base_path @ ''.mlp.up_proj.weight'']
                       [gate_proj_weight, up_proj_weight])
      else if endswith path ''mlp/linear'' then
        Converted [base_path @ ''.mlp.down_proj.weight''] [transpose_rev weights]
      else if endswith path ''post_attention_norm'' then
        Converted [base_path @ ''.post_attention_layernorm.weight''] [weights]
      else if endswith path ''post_ffw_norm'' then
        Converted [base_path @ ''.post_feedforward_layernorm.weight''] [weights]
      else if endswith path ''pre_attention_norm'' then
        Converted [base_path @ ''.input_layernorm.weight''] [weights]
      else if endswith path ''pre_ffw_norm'' then
        Converted [base_path @ ''.pre_feedforward_layernorm.weight''] [weights]
      else Raise (UnexpectedPath path))"

definition transformer_dispatch ::
  "text_config \<Rightarrow> string list \<Rightarrow> 'a ndarray \<Rightarrow> 'a outcome" where
  "transformer_dispatch config paths weights =
     (case paths of
        [path, prop] \<Rightarrow>
          if path = TRANSFORMER_EMBEDDER then
            (if prop = ''input_embedding'' then
               Converted [''language_model.model.embed_tokens.weight'',
                          ''language_model.lm_head.weight'']
                         [weights, weights]
             else if prop = ''mm_input_embedding_extra'' then EarlyReturn []
             else if prop = ''mm_output_embedding'' then EarlyReturn []
             else Raise (UnexpectedMember prop path))
          else if startswith path (TRANSFORMER_EMBEDDER @ ''/mm'') then
            (if endswith path ''/mm_input_projection'' then EarlyReturn []
             else if endswith path ''/mm_soft_embedding_norm'' then EarlyReturn []
             else Raise (UnexpectedSubpath path))
          else if path = TRANSFORMER_FINAL_NORM then
            Converted [''language_model.model.norm.weight''] [weights]
          else if startswith path TRANSFORMER_DECODER_BLOCK then
            decoder_block_weights config path weights
          else Raise (UnexpectedPath path)
      | _ \<Rightarrow> Raise UnpackError)"

definition convert_transformer_weights ::
  "text_config \<Rightarrow> string list \<Rightarrow> 'a ndarray \<Rightarrow> error + (string \<times> 'a ndarray) list" where
  "convert_transformer_weights config paths weights =
     (case transformer_dispatch config paths weights of
        Raise e \<Rightarrow> Inl e
      | EarlyReturn r \<Rightarrow> Inr r
      | Converted converted_paths converted_weights \<Rightarrow>
          if length converted_paths \<noteq> length converted_weights
          then Inl (LengthMismatch (length converted_paths) (length converted_weights)
                      (hd paths))
          else Inr (zip converted_paths converted_weights))"

section \<open>Strings: facts about the path parsing\<close>

lemma str_find_takeWhile:
  "c \<in> set s \<Longrightarrow> str_find s c = int (length (takeWhile (\<lambda>x. x \<noteq> c) s))"
  by (induction s) (auto simp: Let_def)

lemma str_find_absent: "c \<notin> set s \<Longrightarrow> str_find s c = - 1"
  by (induction s) (auto simp: Let_def)

lemma slice_to_find:
  assumes "c \<in> set s"
  shows "slice_to s (str_find s c) = takeWhile (\<lambda>x. x \<noteq> c) s"
proof -
  have "slice_to s (str_find s c) = take (length (takeWhile (\<lambda>x. x \<noteq> c) s)) s"
    using assms by (simp add: str_find_takeWhile slice_to_def)
  then show ?thesis using takeWhile_eq_take [of "\<lambda>x. x \<noteq> c" s] by simp
qed

lemma slice_from_find:
  assumes "c \<in> set s"
  shows "slice_from s (str_find s c) = dropWhile (\<lambda>x. x \<noteq> c) s"
proof -
  have "slice_from s (str_find s c) = drop (length (takeWhile (\<lambda>x. x \<noteq> c) s)) s"
    using assms by (simp add: str_find_takeWhile slice_from_def)
  then show ?thesis using dropWhile_eq_drop [of "\<lambda>x. x \<noteq> c" s] by simp
qed

text \<open>Two endings of one string are comparable, so an ending rules out every ending
  it is not comparable with.\<close>

lemma endswith_excl:
  "endswith p a \<Longrightarrow> \<not> suffix a b \<Longrightarrow> \<not> suffix b a \<Longrightarrow> \<not> endswith p b"
  unfolding endswith_def using suffix_same_cases by blast

text \<open>A string that starts with \<open>P\<close> and ends with \<open>sfx\<close> still ends with
  \<open>sfx\<close> once \<open>P\<close> is cut off, when no ending of \<open>P\<close> starts \<open>sfx\<close>.\<close>

lemma tail_endswith:
  assumes "startswith path P" "endswith path sfx"
    and "\<forall>us \<in> set (suffixes P). us \<noteq> [] \<longrightarrow> \<not> prefix us sfx"
    and "length P = n"
  shows "suffix sfx (drop n path)"
proof -
  from assms(1) obtain X where X: "path = P @ X" by (auto simp: startswith_def prefix_def)
  from assms(2) obtain q where q: "path = q @ sfx" by (auto simp: endswith_def suffix_def)
  from X q have "P @ X = q @ sfx" by simp
  then obtain us where "(P = q @ us \<and> us @ X = sfx) \<or> (P @ us = q \<and> X = us @ sfx)"
    by (auto simp: append_eq_append_conv2)
  then show ?thesis
  proof
    assume h: "P = q @ us \<and> us @ X = sfx"
    then have "suffix us P" "prefix us sfx" by (auto simp: suffix_def prefix_def)
    with assms(3) have "us = []" by (auto simp: in_set_suffixes)
    with h X assms(4) show ?thesis by auto
  next
    assume "P @ us = q \<and> X = us @ sfx"
    with X assms(4) show ?thesis by (auto simp: suffix_def)
  qed
qed

lemma len_decoder_block: "length ''transformer/layer_'' = 18"
  by simp

lemma slice_decoder_block:
  "slice_from path TRANSFORMER_DECODER_BLOCK_LEN = drop 18 path"
  by (simp add: slice_from_def TRANSFORMER_DECODER_BLOCK_LEN_def TRANSFORMER_DECODER_BLOCK_def)

lemma decoder_not_other:
  assumes "startswith path ''transformer/layer_''"
  shows "path \<noteq> TRANSFORMER_EMBEDDER" "\<not> startswith path (TRANSFORMER_EMBEDDER @ ''/mm'')"
    "path \<noteq> TRANSFORMER_FINAL_NORM" "startswith path TRANSFORMER_DECODER_BLOCK"
  using assms
  by (auto simp: startswith_def TRANSFORMER_EMBEDDER_def TRANSFORMER_FINAL_NORM_def
      TRANSFORMER_DECODER_BLOCK_def prefix_def)

section \<open>Arrays: facts about indexing\<close>

lemma ravel_bound:
  "list_all2 (<) idx shp \<Longrightarrow> ravel shp idx < prod_list shp"
proof (induction idx shp rule: list_all2_induct)
  case Nil
  then show ?case by simp
next
  case (Cons i "is" d ds)
  then have "i * prod_list ds + ravel ds is < Suc i * prod_list ds" by simp
  also have "\<dots> \<le> d * prod_list ds" using Cons.hyps(1) by (intro mult_le_mono1) simp
  finally show ?case by simp
qed

lemma unravel_ravel:
  "list_all2 (<) idx shp \<Longrightarrow> unravel shp (ravel shp idx) = idx"
proof (induction idx shp rule: list_all2_induct)
  case Nil
  then show ?case by simp
next
  case (Cons i "is" d ds)
  have b: "ravel ds is < prod_list ds" using Cons.hyps(2) by (rule ravel_bound)
  then show ?case using Cons.IH by simp
qed

text \<open>The element of a permuted array at \<open>j\<close> is the element of the array at the
  multi-index that holds \<open>j[k]\<close> at axis \<open>axes[k]\<close>.\<close>

lemma item_permute_axes:
  assumes "list_all2 (<) j (map (\<lambda>k. shape a ! k) axes)"
  shows "item (permute_axes axes a) j
           = item a (map (\<lambda>d. j ! index_of axes d) [0..<length (shape a)])"
  using ravel_bound [OF assms] unravel_ravel [OF assms]
  by (simp add: item_def permute_axes_def Let_def)

text \<open>Unpacking an array with a leading axis of two gives its two slices along that
  axis.\<close>

lemma unpack2_items:
  assumes s: "shape w = 2 # ds" and wf: "wf_array w"
  shows "\<exists>a b. unpack2 w = Inr (a, b) \<and> shape a = ds \<and> shape b = ds
           \<and> wf_array a \<and> wf_array b \<and> dtype a = dtype w \<and> dtype b = dtype w
           \<and> (\<forall>idx. list_all2 (<) idx ds \<longrightarrow>
                 item a idx = item w (0 # idx) \<and> item b idx = item w (1 # idx))"
proof -
  let ?m = "prod_list ds"
  let ?a = "NDArray ds (take ?m (data w)) (dtype w)"
  let ?b = "NDArray ds (take ?m (drop ?m (data w))) (dtype w)"
  have len: "length (data w) = 2 * ?m" using s wf by (simp add: wf_array_def)
  have u: "unpack2 w = Inr (?a, ?b)" using s by (simp add: unpack2_def Let_def)
  have el: "item ?a idx = item w (0 # idx) \<and> item ?b idx = item w (1 # idx)"
    if "list_all2 (<) idx ds" for idx
    using ravel_bound [OF that] s len by (simp add: item_def add.commute)
  show ?thesis
    apply (rule exI [of _ ?a], rule exI [of _ ?b])
    using u len el by (simp add: wf_array_def)
qed

text \<open>\<open>s.transpose(0, 2, 1).reshape(n * e, m)\<close> on an array of shape
  \<open>(n, m, e)\<close>: row \<open>h * e + d\<close> of the result is column \<open>d\<close> of block
  \<open>h\<close>.\<close>

lemma head_major_flatten:
  fixes s :: "'a ndarray"
  assumes s: "shape s = [n, m, e]"
  shows "\<exists>r. bind_err (transpose_axes [0, 2, 1] s) (reshape [int n * int e, int m]) = Inr r
          \<and> shape r = [n * e, m] \<and> wf_array r \<and> dtype r = dtype s
          \<and> (\<forall>h < n. \<forall>d < e. \<forall>c < m. item r [h * e + d, c] = item s [h, c, d])"
proof -
  let ?t = "permute_axes [0, 2, 1] s"
  let ?r = "NDArray [n * e, m] (data ?t) (dtype s)"
  have t: "transpose_axes [0, 2, 1] s = Inr ?t" using s by (simp add: transpose_axes_def)
  have st: "shape ?t = [n, e, m]" "dtype ?t = dtype s" "length (data ?t) = n * (e * m)"
    using s by (simp_all add: permute_axes_def Let_def)
  have nn: "int n * int e \<noteq> - 1" "int m \<noteq> - 1" "\<not> int n * int e < 0"
    "nat (int n * int e) = n * e"
    by (simp_all add: nat_mult_distrib flip: of_nat_mult)
  have r: "reshape [int n * int e, int m] ?t = Inr ?r"
    using st nn by (simp add: reshape_def Let_def)
  have el: "item ?r [h * e + d, c] = item s [h, c, d]" if "h < n" "d < e" "c < m" for h d c
  proof -
    have "item ?r [h * e + d, c] = item ?t [h, d, c]"
      using st by (simp add: item_def algebra_simps)
    also have "\<dots> = item s (map (\<lambda>x. [h, d, c] ! index_of [0, 2, 1] x) [0..<length (shape s)])"
      by (rule item_permute_axes) (use that s in simp)
    also have "\<dots> = item s [h, c, d]" using s by (simp add: upt_rec)
    finally show ?thesis .
  qed
  show ?thesis
    apply (rule exI [of _ ?r])
    using t r el st by (simp add: bind_err_def wf_array_def)
qed

section \<open>The text-branch rule table: branches\<close>

lemma decoder_layer_idx:
  assumes "startswith path ''transformer/layer_''" "endswith path sfx"
    and "CHR ''/'' \<in> set sfx"
    and "\<forall>us \<in> set (suffixes ''transformer/layer_''). us \<noteq> [] \<longrightarrow> \<not> prefix us sfx"
  shows "slice_to (slice_from path TRANSFORMER_DECODER_BLOCK_LEN)
           (str_find (slice_from path TRANSFORMER_DECODER_BLOCK_LEN) CHR ''/'')
         = takeWhile (\<lambda>c. c \<noteq> CHR ''/'') (drop 18 path)"
proof -
  have "suffix sfx (drop 18 path)"
    by (rule tail_endswith [OF assms(1,2,4) len_decoder_block])
  with assms(3) have "CHR ''/'' \<in> set (drop 18 path)" by (auto simp: suffix_def)
  then show ?thesis by (simp add: slice_to_find slice_decoder_block)
qed

lemma gating_not_earlier:
  assumes "endswith path ''mlp/gating_einsum''"
  shows "\<not> endswith path ''attn/attn_vec_einsum''" "\<not> endswith path ''attn/_key_norm''"
    "\<not> endswith path ''attn/kv_einsum''" "\<not> endswith path ''attn/q_einsum''"
    "\<not> endswith path ''attn/_query_norm''"
  by (rule endswith_excl [OF assms]; simp add: suffix_to_prefix)+

lemma gating_branch:
  assumes "startswith path ''transformer/layer_''" "endswith path ''mlp/gating_einsum''"
  shows "decoder_block_weights config path weights =
     (case unpack2 weights of
        Inl e \<Rightarrow> Raise e
      | Inr (gate_proj_weight, up_proj_weight) \<Rightarrow>
          Converted
            [''language_model.model.layers.''
               @ takeWhile (\<lambda>c. c \<noteq> CHR ''/'') (drop 18 path) @ ''.mlp.gate_proj.weight'',
             ''language_model.model.layers.''
               @ takeWhile (\<lambda>c. c \<noteq> CHR ''/'') (drop 18 path) @ ''.mlp.up_proj.weight'']
            [gate_proj_weight, up_proj_weight])"
proof -
  have idx: "slice_to (slice_from path TRANSFORMER_DECODER_BLOCK_LEN)
           (str_find (slice_from path TRANSFORMER_DECODER_BLOCK_LEN) CHR ''/'')
         = takeWhile (\<lambda>c. c \<noteq> CHR ''/'') (drop 18 path)"
    by (rule decoder_layer_idx [OF assms]) simp_all
  show ?thesis
    unfolding decoder_block_weights_def Let_def idx
    using assms(2) gating_not_earlier [OF assms(2)] by (simp split: sum.splits prod.splits)
qed

lemma kv_not_earlier:
  assumes "endswith path ''attn/kv_einsum''"
  shows "\<not> endswith path ''attn/attn_vec_einsum''" "\<not> endswith path ''attn/_key_norm''"
  by (rule endswith_excl [OF assms]; simp add: suffix_to_prefix)+

lemma kv_branch:
  assumes "startswith path ''transformer/layer_''" "endswith path ''attn/kv_einsum''"
  shows "decoder_block_weights config path weights =
     (case bind_err (unpack2 weights) (\<lambda>(k_proj_weights, v_proj_weights).
             bind_err (bind_err (transpose_axes [0, 2, 1] k_proj_weights)
               (reshape [num_key_value_heads config * head_dim config, hidden_size config]))
             (\<lambda>k.
             bind_err (bind_err (transpose_axes [0, 2, 1] v_proj_weights)
               (reshape [num_key_value_heads config * head_dim config, hidden_size config]))
             (\<lambda>v. Inr [k, v]))) of
        Inl e \<Rightarrow> Raise e
      | Inr ws \<Rightarrow>
          Converted
            [''language_model.model.layers.''
               @ takeWhile (\<lambda>c. c \<noteq> CHR ''/'') (drop 18 path) @ ''.self_attn.k_proj.weight'',
             ''language_model.model.layers.''
               @ takeWhile (\<lambda>c. c \<noteq> CHR ''/'') (drop 18 path) @ ''.self_attn.v_proj.weight'']
            ws)"
proof -
  have idx: "slice_to (slice_from path TRANSFORMER_DECODER_BLOCK_LEN)
           (str_find (slice_from path TRANSFORMER_DECODER_BLOCK_LEN) CHR ''/'')
         = takeWhile (\<lambda>c. c \<noteq> CHR ''/'') (drop 18 path)"
    by (rule decoder_layer_idx [OF assms]) simp_all
  show ?thesis
    unfolding decoder_block_weights_def Let_def idx
    using assms(2) kv_not_earlier [OF assms(2)] by (simp split: sum.splits prod.splits)
qed

section \<open>Properties\<close>

text \<open>
  C2. Combined key/value projection split: on a decoder-block path that ends in
  \<open>attn/kv_einsum\<close>, with an array that stacks two sub-tensors of shape
  \<open>(num_key_value_heads, hidden_size, head_dim)\<close> along its leading axis, the
  text-branch table emits exactly two pairs, the \<open>k_proj\<close> and the \<open>v_proj\<close>
  weight of the layer. Each array has shape
  \<open>(num_key_value_heads * head_dim, hidden_size)\<close> and is the corresponding slice
  permuted by the axes \<open>(0, 2, 1)\<close> and flattened: its row \<open>h * head_dim + d\<close>,
  column \<open>c\<close> is the element \<open>[h, c, d]\<close> of the slice.
\<close>

theorem kv_einsum_split:
  assumes "startswith path ''transformer/layer_''" and "endswith path ''attn/kv_einsum''"
    and "num_key_value_heads config = int kvh" and "head_dim config = int dh"
    and "hidden_size config = int hid"
    and "shape weights = [2, kvh, hid, dh]" and "wf_array weights"
  shows "\<exists>k v.
      convert_transformer_weights config [path, prop] weights =
        Inr [(''language_model.model.layers.'' @ takeWhile (\<lambda>c. c \<noteq> CHR ''/'') (drop 18 path)
                @ ''.self_attn.k_proj.weight'', k),
             (''language_model.model.layers.'' @ takeWhile (\<lambda>c. c \<noteq> CHR ''/'') (drop 18 path)
                @ ''.self_attn.v_proj.weight'', v)]
      \<and> shape k = [kvh * dh, hid] \<and> shape v = [kvh * dh, hid]
      \<and> wf_array k \<and> wf_array v
      \<and> (\<forall>h < kvh. \<forall>d < dh. \<forall>c < hid.
            item k [h * dh + d, c] = item weights [0, h, c, d]
          \<and> item v [h * dh + d, c] = item weights [1, h, c, d])"
proof -
  from unpack2_items [OF assms(6,7)] obtain ks vs where
    u: "unpack2 weights = Inr (ks, vs)" and
    sh: "shape ks = [kvh, hid, dh]" "shape vs = [kvh, hid, dh]" and
    sl: "\<And>idx. list_all2 (<) idx [kvh, hid, dh] \<Longrightarrow>
           item ks idx = item weights (0 # idx) \<and> item vs idx = item weights (1 # idx)"
    by blast
  from head_major_flatten [OF sh(1)] obtain k where
    k: "bind_err (transpose_axes [0, 2, 1] ks) (reshape [int kvh * int dh, int hid]) = Inr k"
      "shape k = [kvh * dh, hid]" "wf_array k"
      "\<And>h d c. h < kvh \<Longrightarrow> d < dh \<Longrightarrow> c < hid \<Longrightarrow> item k [h * dh + d, c] = item ks [h, c, d]"
    by blast
  from head_major_flatten [OF sh(2)] obtain v where
    v: "bind_err (transpose_axes [0, 2, 1] vs) (reshape [int kvh * int dh, int hid]) = Inr v"
      "shape v = [kvh * dh, hid]" "wf_array v"
      "\<And>h d c. h < kvh \<Longrightarrow> d < dh \<Longrightarrow> c < hid \<Longrightarrow> item v [h * dh + d, c] = item vs [h, c, d]"
    by blast
  have r: "convert_transformer_weights config [path, prop] weights =
        Inr [(''language_model.model.layers.'' @ takeWhile (\<lambda>c. c \<noteq> CHR ''/'') (drop 18 path)
                @ ''.self_attn.k_proj.weight'', k),
             (''language_model.model.layers.'' @ takeWhile (\<lambda>c. c \<noteq> CHR ''/'') (drop 18 path)
                @ ''.self_attn.v_proj.weight'', v)]"
    using decoder_not_other [OF assms(1)] u k(1) v(1) assms(3,4,5)
    by (simp add: convert_transformer_weights_def transformer_dispatch_def
        kv_branch [OF assms(1,2)] bind_err_def)
  have el: "item k [h * dh + d, c] = item weights [0, h, c, d]
          \<and> item v [h * dh + d, c] = item weights [1, h, c, d]"
    if "h < kvh" "d < dh" "c < hid" for h d c
    using k(4) [OF that] v(4) [OF that] sl [of "[h, c, d]"] that by simp
  show ?thesis
    apply (rule exI [of _ k], rule exI [of _ v])
    using r k(2,3) v(2,3) el by simp
qed

theorem kv_einsum_split_witness:
  "startswith ''transformer/layer_3/attn/kv_einsum'' ''transformer/layer_''
   \<and> endswith ''transformer/layer_3/attn/kv_einsum'' ''attn/kv_einsum''
   \<and> wf_array (NDArray [2, 1, 2, 3] [0, 1, 2, 3, 4, 5, 6, 7, 8, 9, 10, 11 :: nat] Float32)
   \<and> (\<exists>k v.
        convert_transformer_weights
          \<lparr>hidden_size = 2, num_attention_heads = 1, num_key_value_heads = 1, head_dim = 3\<rparr>
          [''transformer/layer_3/attn/kv_einsum'', ''w'']
          (NDArray [2, 1, 2, 3] [0, 1, 2, 3, 4, 5, 6, 7, 8, 9, 10, 11 :: nat] Float32)
        = Inr [(''language_model.model.layers.3.self_attn.k_proj.weight'', k),
               (''language_model.model.layers.3.self_attn.v_proj.weight'', v)]
        \<and> shape k = [3, 2] \<and> shape v = [3, 2]
        \<and> item k [2, 1] = 5 \<and> item v [2, 1] = 11)"
proof -
  let ?w = "NDArray [2, 1, 2, 3] [0, 1, 2, 3, 4, 5, 6, 7, 8, 9, 10, 11 :: nat] Float32"
  let ?c = "\<lparr>hidden_size = 2, num_attention_heads = 1, num_key_value_heads = 1, head_dim = 3\<rparr>"
  have h: "startswith ''transformer/layer_3/attn/kv_einsum'' ''transformer/layer_''"
    "endswith ''transformer/layer_3/attn/kv_einsum'' ''attn/kv_einsum''"
    "num_key_value_heads ?c = int 1" "head_dim ?c = int 3" "hidden_size ?c = int 2"
    "shape ?w = [2, 1, 2, 3]" "wf_array ?w"
    by (simp_all add: startswith_def endswith_def suffix_to_prefix wf_array_def)
  from kv_einsum_split [OF h, of "''w''"] obtain k v where
    r: "convert_transformer_weights ?c [''transformer/layer_3/attn/kv_einsum'', ''w''] ?w =
         Inr [(''language_model.model.layers.3.self_attn.k_proj.weight'', k),
              (''language_model.model.layers.3.self_attn.v_proj.weight'', v)]"
      "shape k = [1 * 3, 2]" "shape v = [1 * 3, 2]"
      "\<forall>h < 1. \<forall>d < 3. \<forall>c < 2.
            item k [h * 3 + d, c] = item ?w [0, h, c, d]
          \<and> item v [h * 3 + d, c] = item ?w [1, h, c, d]"
    by auto
  have a: "item k [2, 1] = item ?w [0, 0, 1, 2] \<and> item v [2, 1] = item ?w [1, 0, 1, 2]"
    using r(4) [rule_format, of 0 2 1] by (simp add: numeral_2_eq_2)
  have b: "item ?w [0, 0, 1, 2] = 5" "item ?w [1, 0, 1, 2] = 11"
    by (simp_all add: item_def)
  from a b have "item k [2, 1] = 5 \<and> item v [2, 1] = 11" by simp
  with h r show ?thesis by auto
qed

text \<open>
  C3. Gate/up feed-forward split: on a decoder-block path that ends in
  \<open>mlp/gating_einsum\<close>, with a stacked array of shape \<open>(2, H, I)\<close>, the
  text-branch table emits exactly two pairs, the \<open>gate_proj\<close> and the
  \<open>up_proj\<close> weight of the layer, whose arrays have shape \<open>(H, I)\<close> and are
  the two slices of the source along axis 0, element for element, with no further
  transform.
\<close>

theorem gate_up_split:
  assumes "startswith path ''transformer/layer_''" and "endswith path ''mlp/gating_einsum''"
    and "shape weights = [2, H, I]" and "wf_array weights"
  shows "\<exists>gate up.
      convert_transformer_weights config [path, prop] weights =
        Inr [(''language_model.model.layers.'' @ takeWhile (\<lambda>c. c \<noteq> CHR ''/'') (drop 18 path)
                @ ''.mlp.gate_proj.weight'', gate),
             (''language_model.model.layers.'' @ takeWhile (\<lambda>c. c \<noteq> CHR ''/'') (drop 18 path)
                @ ''.mlp.up_proj.weight'', up)]
      \<and> shape gate = [H, I] \<and> shape up = [H, I]
      \<and> wf_array gate \<and> wf_array up
      \<and> dtype gate = dtype weights \<and> dtype up = dtype weights
      \<and> (\<forall>h < H. \<forall>i < I. item gate [h, i] = item weights [0, h, i]
                          \<and> item up [h, i] = item weights [1, h, i])"
proof -
  from unpack2_items [OF assms(3,4)] obtain gate up where
    u: "unpack2 weights = Inr (gate, up)" and
    sh: "shape gate = [H, I]" "shape up = [H, I]" "wf_array gate" "wf_array up"
      "dtype gate = dtype weights" "dtype up = dtype weights" and
    sl: "\<And>idx. list_all2 (<) idx [H, I] \<Longrightarrow>
           item gate idx = item weights (0 # idx) \<and> item up idx = item weights (1 # idx)"
    by blast
  have r: "convert_transformer_weights config [path, prop] weights =
        Inr [(''language_model.model.layers.'' @ takeWhile (\<lambda>c. c \<noteq> CHR ''/'') (drop 18 path)
                @ ''.mlp.gate_proj.weight'', gate),
             (''language_model.model.layers.'' @ takeWhile (\<lambda>c. c \<noteq> CHR ''/'') (drop 18 path)
                @ ''.mlp.up_proj.weight'', up)]"
    using decoder_not_other [OF assms(1)]
    by (simp add: convert_transformer_weights_def transformer_dispatch_def
        gating_branch [OF assms(1,2)] u)
  have el: "item gate [h, i] = item weights [0, h, i] \<and> item up [h, i] = item weights [1, h, i]"
    if "h < H" "i < I" for h i
    using sl [of "[h, i]"] that by simp
  show ?thesis
    apply (rule exI [of _ gate], rule exI [of _ up])
    using r sh el by simp
qed

theorem gate_up_split_witness:
  "startswith ''transformer/layer_0/mlp/gating_einsum'' ''transformer/layer_''
   \<and> endswith ''transformer/layer_0/mlp/gating_einsum'' ''mlp/gating_einsum''
   \<and> wf_array (NDArray [2, 1, 2] [10, 20, 30, 40 :: nat] Float32)
   \<and> (\<exists>gate up.
        convert_transformer_weights
          \<lparr>hidden_size = 2, num_attention_heads = 1, num_key_value_heads = 1, head_dim = 3\<rparr>
          [''transformer/layer_0/mlp/gating_einsum'', ''w'']
          (NDArray [2, 1, 2] [10, 20, 30, 40 :: nat] Float32)
        = Inr [(''language_model.model.layers.0.mlp.gate_proj.weight'', gate),
               (''language_model.model.layers.0.mlp.up_proj.weight'', up)]
        \<and> shape gate = [1, 2] \<and> shape up = [1, 2]
        \<and> item gate [0, 1] = 20 \<and> item up [0, 1] = 40)"
proof -
  let ?w = "NDArray [2, 1, 2] [10, 20, 30, 40 :: nat] Float32"
  let ?c = "\<lparr>hidden_size = 2, num_attention_heads = 1, num_key_value_heads = 1, head_dim = 3\<rparr>"
  have h: "startswith ''transformer/layer_0/mlp/gating_einsum'' ''transformer/layer_''"
    "endswith ''transformer/layer_0/mlp/gating_einsum'' ''mlp/gating_einsum''"
    "shape ?w = [2, 1, 2]" "wf_array ?w"
    by (simp_all add: startswith_def endswith_def suffix_to_prefix wf_array_def)
  from gate_up_split [OF h, of ?c "''w''"] obtain gate up where
    r: "convert_transformer_weights ?c [''transformer/layer_0/mlp/gating_einsum'', ''w''] ?w =
         Inr [(''language_model.model.layers.0.mlp.gate_proj.weight'', gate),
              (''language_model.model.layers.0.mlp.up_proj.weight'', up)]"
      "shape gate = [1, 2]" "shape up = [1, 2]"
      "\<forall>h < 1. \<forall>i < 2. item gate [h, i] = item ?w [0, h, i] \<and> item up [h, i] = item ?w [1, h, i]"
    by auto
  have a: "item gate [0, 1] = item ?w [0, 0, 1] \<and> item up [0, 1] = item ?w [1, 0, 1]"
    using r(4) [rule_format, of 0 1] by simp
  have b: "item ?w [0, 0, 1] = 20" "item ?w [1, 0, 1] = 40"
    by (simp_all add: item_def)
  from a b have "item gate [0, 1] = 20 \<and> item up [0, 1] = 40" by simp
  with h r show ?thesis by auto
qed

text \<open>
  C4. Shared-weight duplication: on the embedder path with leaf property
  \<open>input_embedding\<close> the text-branch table emits exactly two pairs, the token
  embedding key and the output projection key, and both arrays are the source array
  itself, untransformed.
\<close>

theorem input_embedding_duplicated:
  "convert_transformer_weights config [''transformer/embedder'', ''input_embedding''] weights
     = Inr [(''language_model.model.embed_tokens.weight'', weights),
            (''language_model.lm_head.weight'', weights)]"
  by (simp add: convert_transformer_weights_def transformer_dispatch_def
      TRANSFORMER_EMBEDDER_def)

end
